theory Spec2Isabelle
  imports Main "HOL-Library.Sublist" "HOL-Library.Char_ord" "HOL-Library.List_Lexorder"
begin

section \<open>Interpreter generation helpers (codegen/utilities/interpreter\_helpers.py)\<close>

text \<open>
  The helpers decide, from static metadata only, how the call site of every native driver
  function is generated. They read attributes of \<^verbatim>\<open>Parameter\<close> and \<^verbatim>\<open>Function\<close>
  objects whose classes live in other modules; the objects are modelled here as records
  holding exactly the attributes the helpers read. Python strings are \<^typ>\<open>string\<close>;
  an f-string is the concatenation of its pieces.
\<close>

subsection \<open>Data model\<close>

text \<open>
  \<^verbatim>\<open>param.size\<close> has the attributes \<^verbatim>\<open>mechanism\<close> and \<^verbatim>\<open>value\<close>. The value
  (a parameter name or a literal count) is kept as the text an f-string renders for it.
\<close>

record parameter_size =
  mechanism :: string
  size_value :: string

text \<open>
  The attributes of a \<^verbatim>\<open>Parameter\<close>. The size descriptor is optional: reading
  \<^verbatim>\<open>param.size.value\<close> of a parameter without one raises \<^verbatim>\<open>AttributeError\<close>.
  \<^verbatim>\<open>param.type\<close> may be \<^verbatim>\<open>None\<close>.
\<close>

record parameter =
  parameter_name :: string
  direction :: string
  has_explicit_buffer_size :: bool
  param_size :: "parameter_size option"
  repeating_argument :: bool
  is_list :: bool
  ctypes_data_type :: string
  param_type :: "string option"

text \<open>
  The attributes of a \<^verbatim>\<open>Function\<close> read by the helpers. The four parameter lists are
  separate attributes of the object; the helpers never relate them to one another.
\<close>

record func =
  interpreter_parameters :: "parameter list"
  base_parameters :: "parameter list"
  parameters :: "parameter list"
  output_parameters :: "parameter list"
  is_init_method :: bool
  stream_response :: bool

datatype error = AttributeError | NotImplementedError

subsection \<open>Parameter selections\<close>

definition get_varargs_parameters :: "func \<Rightarrow> parameter list" where
  "get_varargs_parameters f = filter repeating_argument (parameters f)"

definition get_interpreter_output_params :: "func \<Rightarrow> parameter list" where
  "get_interpreter_output_params f =
     filter (\<lambda>p. direction p = ''out'') (interpreter_parameters f)"

definition get_output_params :: "func \<Rightarrow> parameter list" where
  "get_output_params f = filter (\<lambda>p. direction p = ''out'') (base_parameters f)"

subsection \<open>Return values\<close>

text \<open>
  \<^verbatim>\<open>get_return_values\<close>: the loop appends one expression per output parameter; the
  accumulator is the list \<^verbatim>\<open>return_values\<close>.
\<close>

fun return_values_loop :: "parameter list \<Rightarrow> string list \<Rightarrow> string list" where
  "return_values_loop [] return_values = return_values"
| "return_values_loop (p # ps) return_values =
     (if repeating_argument p then
        return_values_loop ps (return_values @
          [''['' @ parameter_name p @ ''_element.value for '' @ parameter_name p
             @ ''_element in '' @ parameter_name p @ '']''])
      else if ctypes_data_type p = ''ctypes.c_char_p'' then
        return_values_loop ps (return_values @ [parameter_name p @ ''.value.decode('ascii')''])
      else if is_list p then
        return_values_loop ps (return_values @ [parameter_name p @ ''.tolist()''])
      else if param_type p = Some ''TaskHandle'' then
        return_values_loop ps (return_values @ [parameter_name p])
      else
        return_values_loop ps (return_values @ [parameter_name p @ ''.value'']))"

definition get_return_values :: "func \<Rightarrow> string list" where
  "get_return_values f = return_values_loop (get_interpreter_output_params f) []"

text \<open>
  The extraction policy in the specification's words: one expression per output parameter,
  the shapes tested in the order repeating, text, buffer, task handle, scalar.
\<close>

definition spec_return_value :: "parameter \<Rightarrow> string" where
  "spec_return_value p =
     (if repeating_argument p then
        ''['' @ parameter_name p @ ''_element.value for '' @ parameter_name p
          @ ''_element in '' @ parameter_name p @ '']''
      else if ctypes_data_type p = ''ctypes.c_char_p'' then
        parameter_name p @ ''.value.decode('ascii')''
      else if is_list p then parameter_name p @ ''.tolist()''
      else if param_type p = Some ''TaskHandle'' then parameter_name p
      else parameter_name p @ ''.value'')"

subsection \<open>Call arguments\<close>

text \<open>
  \<^verbatim>\<open>SizeParameter = collections.namedtuple("SizeParameter", ["name", "size"])\<close>; the
  dictionary \<^verbatim>\<open>size_values\<close> maps a size value to the entry stored last for it.
\<close>

record size_parameter =
  sp_name :: string
  sp_size :: string

text \<open>
  First loop of \<^verbatim>\<open>generate_interpreter_function_call_args\<close>: every \<^verbatim>\<open>in\<close>
  parameter with an explicit buffer size, and every \<^verbatim>\<open>out\<close> parameter with an explicit
  buffer size and the ivi-dance mechanism, stores its entry under its size value,
  overwriting an earlier entry of the same key.
\<close>

fun record_size_values ::
  "parameter list \<Rightarrow> (string \<rightharpoonup> size_parameter) \<Rightarrow> error + (string \<rightharpoonup> size_parameter)" where
  "record_size_values [] size_values = Inr size_values"
| "record_size_values (p # ps) size_values =
     (if has_explicit_buffer_size p then
        (if direction p = ''in'' then
           (case param_size p of
              None \<Rightarrow> Inl AttributeError
            | Some s \<Rightarrow>
                record_size_values ps
                  (size_values(size_value s \<mapsto>
                     \<lparr>sp_name = parameter_name p,
                      sp_size = ''len('' @ parameter_name p @ '')''\<rparr>)))
         else if direction p = ''out'' then
           (case param_size p of
              None \<Rightarrow> Inl AttributeError
            | Some s \<Rightarrow>
                (if mechanism s = ''ivi-dance'' then
                   record_size_values ps
                     (size_values(size_value s \<mapsto>
                        \<lparr>sp_name = parameter_name p, sp_size = ''temp_size''\<rparr>))
                 else record_size_values ps size_values))
         else record_size_values ps size_values)
      else record_size_values ps size_values)"

text \<open>
  Second loop: the argument for the parameter itself, then the recorded size expression when
  the entry stored under the parameter's size value carries the parameter's own name.
\<close>

fun append_call_args ::
  "parameter list \<Rightarrow> (string \<rightharpoonup> size_parameter) \<Rightarrow> string list \<Rightarrow> error + string list" where
  "append_call_args [] size_values function_call_args = Inr function_call_args"
| "append_call_args (p # ps) size_values function_call_args =
     (let args1 =
        (if direction p = ''in'' then function_call_args @ [parameter_name p]
         else if direction p = ''out'' then
           (if has_explicit_buffer_size p then function_call_args @ [parameter_name p]
            else function_call_args @ [''ctypes.byref('' @ parameter_name p @ '')''])
         else function_call_args)
      in
        if has_explicit_buffer_size p then
          (case param_size p of
             None \<Rightarrow> Inl AttributeError
           | Some s \<Rightarrow>
               (case size_values (size_value s) of
                  None \<Rightarrow> append_call_args ps size_values args1
                | Some size_parameter \<Rightarrow>
                    (if parameter_name p = sp_name size_parameter then
                       append_call_args ps size_values (args1 @ [sp_size size_parameter])
                     else append_call_args ps size_values args1)))
        else append_call_args ps size_values args1)"

definition generate_interpreter_function_call_args :: "func \<Rightarrow> error + string list" where
  "generate_interpreter_function_call_args function_metadata =
     (case record_size_values (interpreter_parameters function_metadata) Map.empty of
        Inl e \<Rightarrow> Inl e
      | Inr size_values \<Rightarrow>
          append_call_args (interpreter_parameters function_metadata) size_values [])"

subsection \<open>Instantiation of outputs\<close>

fun instantiation_lines_loop :: "parameter list \<Rightarrow> string list \<Rightarrow> error + string list" where
  "instantiation_lines_loop [] instantiation_lines = Inr instantiation_lines"
| "instantiation_lines_loop (p # ps) instantiation_lines =
     (if parameter_name p = ''task'' then instantiation_lines_loop ps instantiation_lines
      else if repeating_argument p then
        instantiation_lines_loop ps (instantiation_lines @ [parameter_name p @ '' = []''])
      else if has_explicit_buffer_size p then
        (case param_size p of
           None \<Rightarrow> Inl AttributeError
         | Some s \<Rightarrow>
             (if (mechanism s = ''passed-in'' \<or> mechanism s = ''passed-in-by-ptr'') \<and> is_list p
              then
                instantiation_lines_loop ps (instantiation_lines @
                  [parameter_name p @ '' = numpy.zeros('' @ size_value s @ '', dtype=''
                     @ ctypes_data_type p @ '')''])
              else if mechanism s = ''custom-code'' then
                instantiation_lines_loop ps (instantiation_lines @
                  [''size = '' @ size_value s,
                   parameter_name p @ '' = numpy.zeros(size, dtype='' @ ctypes_data_type p
                     @ '')''])
              else instantiation_lines_loop ps instantiation_lines))
      else
        instantiation_lines_loop ps
          (instantiation_lines @ [parameter_name p @ '' = '' @ ctypes_data_type p @ ''()'']))"

definition get_instantiation_lines_for_output :: "func \<Rightarrow> error + string list" where
  "get_instantiation_lines_for_output f =
     instantiation_lines_loop (get_interpreter_output_params f)
       (if is_init_method f then [''task = lib_importer.task_handle(0)''] else [])"

subsection \<open>Variable arguments\<close>

text \<open>
  \<^verbatim>\<open>any(get_varargs_parameters(func))\<close> tests a list of parameter objects, which are
  truthy: it holds exactly when the list is not empty.
\<close>

fun varargs_instantiation_loop :: "parameter list \<Rightarrow> string list \<Rightarrow> string list" where
  "varargs_instantiation_loop [] instantiation_lines = instantiation_lines"
| "varargs_instantiation_loop (p # ps) instantiation_lines =
     varargs_instantiation_loop ps (instantiation_lines @
       [parameter_name p @ ''_element = '' @ ctypes_data_type p @ ''()'',
        parameter_name p @ ''.append('' @ parameter_name p @ ''_element)''])"

definition get_instantiation_lines_for_varargs :: "func \<Rightarrow> string list" where
  "get_instantiation_lines_for_varargs f =
     (if get_varargs_parameters f \<noteq> [] then varargs_instantiation_loop (output_parameters f) []
      else [])"

text \<open>
  \<^verbatim>\<open>to_param_argtype\<close> is imported from \<^verbatim>\<open>codegen.utilities.function_helpers\<close>;
  it is a parameter of the model.
\<close>

fun argument_definition_loop ::
  "(parameter \<Rightarrow> string) \<Rightarrow> parameter list \<Rightarrow> string list \<Rightarrow> string list" where
  "argument_definition_loop to_param_argtype [] argument_definition_lines =
     argument_definition_lines"
| "argument_definition_loop to_param_argtype (p # ps) argument_definition_lines =
     (let argtype = to_param_argtype p;
          lines1 =
            (if direction p = ''in'' then
               argument_definition_lines @ [''args.append('' @ parameter_name p @ ''[index])'']
             else
               argument_definition_lines @
                 [''args.append(ctypes.byref('' @ parameter_name p @ ''_element))''])
      in argument_definition_loop to_param_argtype ps
           (lines1 @ [''argtypes.append('' @ argtype @ '')''] @ ['''']))"

definition get_argument_definition_lines_for_varargs ::
  "(parameter \<Rightarrow> string) \<Rightarrow> parameter list \<Rightarrow> string list" where
  "get_argument_definition_lines_for_varargs to_param_argtype varargs_params =
     argument_definition_loop to_param_argtype varargs_params []"

subsection \<open>The ivi-dance mechanism and the call template\<close>

text \<open>
  The comprehension \<^verbatim>\<open>[p for p in explicit_output_params if p.size.mechanism == "ivi-dance"]\<close>
  reads the size descriptor of every element.
\<close>

fun select_ivi_dance :: "parameter list \<Rightarrow> error + parameter list" where
  "select_ivi_dance [] = Inr []"
| "select_ivi_dance (p # ps) =
     (case param_size p of
        None \<Rightarrow> Inl AttributeError
      | Some s \<Rightarrow>
          (case select_ivi_dance ps of
             Inl e \<Rightarrow> Inl e
           | Inr r \<Rightarrow> Inr (if mechanism s = ''ivi-dance'' then p # r else r)))"

definition get_output_param_with_ivi_dance_mechanism :: "func \<Rightarrow> error + parameter option" where
  "get_output_param_with_ivi_dance_mechanism f =
     (let output_parameters = get_output_params f;
          explicit_output_params = filter has_explicit_buffer_size output_parameters
      in case select_ivi_dance explicit_output_params of
           Inl e \<Rightarrow> Inl e
         | Inr params_with_ivi_dance_mechanism \<Rightarrow>
             (if length params_with_ivi_dance_mechanism > 1 then Inl NotImplementedError
              else if length params_with_ivi_dance_mechanism = 1
                then Inr (Some (params_with_ivi_dance_mechanism ! 0))
              else Inr None))"

definition has_parameter_with_ivi_dance_size_mechanism :: "func \<Rightarrow> error + bool" where
  "has_parameter_with_ivi_dance_size_mechanism f =
     (case get_output_param_with_ivi_dance_mechanism f of
        Inl e \<Rightarrow> Inl e
      | Inr parameter_with_size_buffer \<Rightarrow> Inr (parameter_with_size_buffer \<noteq> None))"

definition get_c_function_call_template :: "func \<Rightarrow> error + string" where
  "get_c_function_call_template f =
     (if stream_response f then Inr ''/event_function_call.py.mako''
      else if get_varargs_parameters f \<noteq> [] then Inr ''/exec_cdecl_c_function_call.py.mako''
      else
        (case has_parameter_with_ivi_dance_size_mechanism f of
           Inl e \<Rightarrow> Inl e
         | Inr b \<Rightarrow>
             (if b then Inr ''/double_c_function_call.py.mako''
              else Inr ''/default_c_function_call.py.mako'')))"

subsection \<open>Name normalisation\<close>

text \<open>
  Names are identifiers of the C driver, read as ASCII text. Every pattern of the custom
  list has the shape \<^verbatim>\<open>(c)(r)\<close>: group 1 is one character of a class, group 2 a
  pattern \<open>r\<close> matched greedily right after it. A pattern is kept as the class of group 1
  and a function that gives the length of the match of group 2 at the start of a text, or
  \<open>None\<close> when group 2 does not match there.
\<close>

record regex =
  group1 :: "char \<Rightarrow> bool"
  group2 :: "string \<Rightarrow> nat option"

definition is_upper :: "char \<Rightarrow> bool" where
  "is_upper c = (CHR ''A'' \<le> c \<and> c \<le> CHR ''Z'')"

definition is_lower :: "char \<Rightarrow> bool" where
  "is_lower c = (CHR ''a'' \<le> c \<and> c \<le> CHR ''z'')"

definition is_digit :: "char \<Rightarrow> bool" where
  "is_digit c = (CHR ''0'' \<le> c \<and> c \<le> CHR ''9'')"

text \<open>\<^verbatim>\<open>[A-Z][a-z]+\<close>: one capital, then the longest run of at least one small letter.\<close>

definition capitalised_word :: "string \<Rightarrow> nat option" where
  "capitalised_word s =
     (case s of
        b # c # cs \<Rightarrow>
          (if is_upper b \<and> is_lower c then Some (2 + length (takeWhile is_lower cs)) else None)
      | _ \<Rightarrow> None)"

text \<open>A group 2 that is a single character class.\<close>

definition one_of :: "(char \<Rightarrow> bool) \<Rightarrow> string \<Rightarrow> nat option" where
  "one_of cls s = (case s of b # _ \<Rightarrow> (if cls b then Some 1 else None) | [] \<Rightarrow> None)"

text \<open>
  \<^verbatim>\<open>re.compile("([^_\n])([A-Z][a-z]+)")\<close>, \<^verbatim>\<open>re.compile("([a-z])([A-Z])")\<close> and
  \<^verbatim>\<open>re.compile("([0-9])([^_0-9])")\<close>.
\<close>

definition INTERPRETER_CAMEL_TO_SNAKE_CASE_REGEXES :: "regex list" where
  "INTERPRETER_CAMEL_TO_SNAKE_CASE_REGEXES =
     [\<lparr>group1 = (\<lambda>c. c \<noteq> CHR ''_'' \<and> c \<noteq> CHR 0x0A), group2 = capitalised_word\<rparr>,
      \<lparr>group1 = is_lower, group2 = one_of is_upper\<rparr>,
      \<lparr>group1 = is_digit, group2 = one_of (\<lambda>c. c \<noteq> CHR ''_'' \<and> \<not> is_digit c)\<rparr>]"

text \<open>
  \<^verbatim>\<open>regex.sub(r"\1_\2", text)\<close>: the matches are found from left to right and do not
  overlap; the search goes on after the end of a match.
\<close>

function re_sub :: "regex \<Rightarrow> string \<Rightarrow> string" where
  "re_sub r [] = []"
| "re_sub r (c # cs) =
     (case (if group1 r c then group2 r cs else None) of
        Some k \<Rightarrow> c # CHR ''_'' # take k cs @ re_sub r (drop k cs)
      | None \<Rightarrow> c # re_sub r cs)"
  by pat_completeness auto
termination
  by (relation "measure (\<lambda>(r, s). length s)") auto

definition lower_char :: "char \<Rightarrow> char" where
  "lower_char c = (if is_upper c then char_of (of_char c + (32::nat)) else c)"

text \<open>
  Modelled from the spec: \<^verbatim>\<open>camel_to_snake_case\<close> of \<^verbatim>\<open>codegen.utilities.helpers\<close>,
  which is not among the sources. The specification calls it a tokenizing rule set that
  renames a mixed-case name into the host convention: every rule of the list is applied in
  turn, putting a separator between its two groups, and the result is put in lower case.
\<close>

definition camel_to_snake_case :: "string \<Rightarrow> regex list \<Rightarrow> string" where
  "camel_to_snake_case camel_case_string regexes =
     map lower_char (fold re_sub regexes camel_case_string)"

text \<open>\<^verbatim>\<open>function_name.replace("_u_int", "_uint")\<close>, from left to right.\<close>

fun replace_u_int :: "string \<Rightarrow> string" where
  "replace_u_int [] = []"
| "replace_u_int (c # cs) =
     (if prefix ''_u_int'' (c # cs) then ''_uint'' @ replace_u_int (drop 5 cs)
      else c # replace_u_int cs)"

text \<open>Lines 54 and 55 of \<^verbatim>\<open>get_interpreter_functions\<close>.\<close>

definition normalize_function_name :: "string \<Rightarrow> string" where
  "normalize_function_name function_name =
     replace_u_int (camel_to_snake_case function_name INTERPRETER_CAMEL_TO_SNAKE_CASE_REGEXES)"

subsection \<open>Metadata ingestion\<close>

definition INTERPRETER_IGNORED_FUNCTIONS :: "string list" where
  "INTERPRETER_IGNORED_FUNCTIONS =
     [''GetExtendedErrorInfo'',
      ''GetArmStartTrigTimestampVal'',
      ''GetFirstSampTimestampVal'',
      ''GetRefTrigTimestampVal'',
      ''GetStartTrigTimestampVal'',
      ''GetTimingAttributeExTimestamp'',
      ''GetTimingAttributeTimestamp'',
      ''GetTrigAttributeTimestamp'',
      ''SetTimingAttributeExTimestamp'',
      ''SetTimingAttributeTimestamp'',
      ''SetTrigAttributeTimestamp'',
      ''GetArmStartTrigTrigWhen'',
      ''GetFirstSampClkWhen'',
      ''GetStartTrigTrigWhen'',
      ''GetSyncPulseTimeWhen'',
      ''SetArmStartTrigTrigWhen'',
      ''SetFirstSampClkWhen'',
      ''SetStartTrigTrigWhen'',
      ''SetSyncPulseTimeWhen'']"

definition LIBRARY_INTERPRETER_IGNORED_FUNCTIONS :: "string list" where
  "LIBRARY_INTERPRETER_IGNORED_FUNCTIONS =
     [''RegisterSignalEvent'', ''RegisterEveryNSamplesEvent'', ''RegisterDoneEvent'']"

text \<open>
  The raw metadata are dictionaries. A parameter dictionary always has its \<^verbatim>\<open>"name"\<close>;
  \<^verbatim>\<open>"size"\<close> and \<^verbatim>\<open>"include_in_proto"\<close> are read with \<^verbatim>\<open>get\<close> and may be missing,
  as may the two keys of a size dictionary.
\<close>

record size_dict =
  dict_mechanism :: "string option"
  dict_value :: "string option"

record parameter_dict =
  dict_name :: string
  dict_size :: "size_dict option"
  include_in_proto :: "bool option"

record function_dict =
  dict_parameters :: "parameter_dict list"
  c_function_name :: "string option"

definition is_skippable_param :: "parameter_dict \<Rightarrow> bool" where
  "is_skippable_param param =
     (let ignored_params = [''size'', ''reserved''] in
      if \<not> (case include_in_proto param of None \<Rightarrow> True | Some b \<Rightarrow> b)
         \<and> dict_name param \<in> set ignored_params
      then True else False)"

text \<open>
  \<^verbatim>\<open>size.get("value")\<close> may be \<^verbatim>\<open>None\<close>, so the collected names are optional.
\<close>

fun skippable_params_loop ::
  "parameter_dict list \<Rightarrow> string option list \<Rightarrow> string option list" where
  "skippable_params_loop [] skippable_params = skippable_params"
| "skippable_params_loop (param # rest) skippable_params =
     (let ignored_mechanisms = [''ivi-dance''];
          size = (case dict_size param of
                    None \<Rightarrow> \<lparr>dict_mechanism = None, dict_value = None\<rparr>
                  | Some s \<Rightarrow> s);
          skippable1 =
            (if dict_mechanism size \<in> Some ` set ignored_mechanisms
             then skippable_params @ [dict_value size] else skippable_params);
          skippable2 =
            (if is_skippable_param param then skippable1 @ [Some (dict_name param)]
             else skippable1)
      in skippable_params_loop rest skippable2)"

definition get_skippable_params_for_interpreter_func ::
  "function_dict \<Rightarrow> string option list" where
  "get_skippable_params_for_interpreter_func func =
     skippable_params_loop (dict_parameters func) []"

text \<open>
  Modelled from the spec: the object built by \<^verbatim>\<open>Function(function_name, function_data)\<close>,
  whose class is not among the sources. The specification gives a function its
  normalized name, its original native name and its ordered parameters; the object is kept
  as the two constructor arguments, \<^verbatim>\<open>_function_name\<close> being the first.
\<close>

record function_object =
  function_name :: string
  function_data :: function_dict

fun interpreter_functions_loop ::
  "(string \<times> function_dict) list \<Rightarrow> function_object list \<Rightarrow> function_object list" where
  "interpreter_functions_loop [] functions_metadata = functions_metadata"
| "interpreter_functions_loop ((name, data) # rest) functions_metadata =
     (if name \<in> set INTERPRETER_IGNORED_FUNCTIONS then
        interpreter_functions_loop rest functions_metadata
      else
        (let data1 = data\<lparr>c_function_name := Some name\<rparr>;
             name1 = normalize_function_name name;
             skippable_params = get_skippable_params_for_interpreter_func data1;
             data2 = data1\<lparr>dict_parameters :=
                       filter (\<lambda>p. Some (dict_name p) \<notin> set skippable_params)
                         (dict_parameters data1)\<rparr>
         in interpreter_functions_loop rest
              (functions_metadata @ [\<lparr>function_name = name1, function_data = data2\<rparr>])))"

text \<open>
  \<^verbatim>\<open>metadata["functions"]\<close> is the catalog, a dictionary in insertion order. The
  generator expression stored under \<^verbatim>\<open>"parameters"\<close> is read as the filtered list, as
  when the constructor consumes it at once. \<^verbatim>\<open>sorted\<close> is stable and compares the names
  as Python compares strings, character by character.
\<close>

definition get_interpreter_functions ::
  "(string \<times> function_dict) list \<Rightarrow> function_object list" where
  "get_interpreter_functions all_functions =
     sort_key function_name (interpreter_functions_loop all_functions [])"

section \<open>The specification's reading of the helpers, and example metadata\<close>

text \<open>
  The definitions of this section are not translations of code: they state, in the words
  of the specification, what the helpers are said to compute, and the theorems compare
  them with the functions above. The examples are metadata on which the functions are
  evaluated.
\<close>

subsection \<open>Size slots\<close>

text \<open>
  The data model's invariant: a parameter with an explicit buffer size carries a size
  descriptor.
\<close>

definition size_well_formed :: "parameter list \<Rightarrow> bool" where
  "size_well_formed ps =
     list_all (\<lambda>p. has_explicit_buffer_size p \<longrightarrow> param_size p \<noteq> None) ps"

text \<open>The size slot a parameter names: the value of its size descriptor.\<close>

definition size_slot :: "parameter \<Rightarrow> string option" where
  "size_slot p =
     (if has_explicit_buffer_size p then map_option size_value (param_size p) else None)"

text \<open>
  A parameter supplies its size slot when it has an explicit buffer size and is an
  \<^verbatim>\<open>in\<close> parameter, or an \<^verbatim>\<open>out\<close> parameter with the ivi-dance mechanism.
\<close>

definition is_size_supplier :: "parameter \<Rightarrow> bool" where
  "is_size_supplier p =
     (has_explicit_buffer_size p \<and>
      (direction p = ''in'' \<or>
       direction p = ''out'' \<and> map_option mechanism (param_size p) = Some ''ivi-dance''))"

definition supplies :: "string \<Rightarrow> parameter \<Rightarrow> bool" where
  "supplies v p = (size_slot p = Some v \<and> is_size_supplier p)"

text \<open>
  The computed size expression of a supplier: its length for an \<^verbatim>\<open>in\<close> parameter, the
  temporary size variable otherwise.
\<close>

definition size_expression :: "parameter \<Rightarrow> string" where
  "size_expression p =
     (if direction p = ''in'' then ''len('' @ parameter_name p @ '')'' else ''temp_size'')"

definition size_entry :: "parameter \<Rightarrow> size_parameter" where
  "size_entry p = \<lparr>sp_name = parameter_name p, sp_size = size_expression p\<rparr>"

text \<open>One call argument per parameter, by direction.\<close>

definition spec_param_arg :: "parameter \<Rightarrow> string list" where
  "spec_param_arg p =
     (if direction p = ''in'' then [parameter_name p]
      else if direction p = ''out'' then
        (if has_explicit_buffer_size p then [parameter_name p]
         else [''ctypes.byref('' @ parameter_name p @ '')''])
      else [])"

text \<open>
  The size expression that follows a parameter: the one recorded for its size slot, when
  the slot is recorded as supplied by a parameter of the same name.
\<close>

definition spec_size_arg :: "(string \<rightharpoonup> size_parameter) \<Rightarrow> parameter \<Rightarrow> string list" where
  "spec_size_arg sv p =
     (case size_slot p of
        None \<Rightarrow> []
      | Some v \<Rightarrow>
          (case sv v of
             None \<Rightarrow> []
           | Some e \<Rightarrow> if sp_name e = parameter_name p then [sp_size e] else []))"

text \<open>The last parameter, in declaration order, that supplies a slot.\<close>

definition last_supplier :: "string \<Rightarrow> parameter list \<Rightarrow> parameter option" where
  "last_supplier v ps = find (supplies v) (rev ps)"

definition spec_last_size_arg :: "parameter list \<Rightarrow> parameter \<Rightarrow> string list" where
  "spec_last_size_arg ps p =
     (case size_slot p of
        None \<Rightarrow> []
      | Some v \<Rightarrow>
          (case last_supplier v ps of
             None \<Rightarrow> []
           | Some q \<Rightarrow>
               if parameter_name q = parameter_name p then [size_expression q] else []))"

subsection \<open>Example metadata\<close>

definition example_data :: parameter where
  "example_data =
     \<lparr>parameter_name = ''data'', direction = ''in'', has_explicit_buffer_size = True,
      param_size = Some \<lparr>mechanism = ''len'', size_value = ''numSamps''\<rparr>,
      repeating_argument = False, is_list = True, ctypes_data_type = ''numpy.float64'',
      param_type = Some ''const float64[]''\<rparr>"


definition example_written :: parameter where
  "example_written =
     \<lparr>parameter_name = ''samps_written'', direction = ''out'', has_explicit_buffer_size = False,
      param_size = None, repeating_argument = False, is_list = False,
      ctypes_data_type = ''ctypes.c_int'', param_type = Some ''int32''\<rparr>"

definition example_expir_states :: parameter where
  "example_expir_states =
     \<lparr>parameter_name = ''expir_state_array'', direction = ''in'',
      has_explicit_buffer_size = True,
      param_size = Some \<lparr>mechanism = ''len'', size_value = ''arraySize''\<rparr>,
      repeating_argument = False, is_list = True, ctypes_data_type = ''numpy.float64'',
      param_type = Some ''const float64[]''\<rparr>"

definition example_output_types :: parameter where
  "example_output_types =
     \<lparr>parameter_name = ''output_type_array'', direction = ''in'',
      has_explicit_buffer_size = True,
      param_size = Some \<lparr>mechanism = ''len'', size_value = ''arraySize''\<rparr>,
      repeating_argument = False, is_list = True, ctypes_data_type = ''numpy.int32'',
      param_type = Some ''const int32[]''\<rparr>"

text \<open>A function that is neither streaming nor the task-creation entry point.\<close>

definition example_function :: "parameter list \<Rightarrow> func" where
  "example_function ps =
     \<lparr>interpreter_parameters = ps, base_parameters = ps, parameters = ps,
      output_parameters = filter (\<lambda>p. direction p = ''out'') ps,
      is_init_method = False, stream_response = False\<rparr>"

subsection \<open>Outputs sized by the ivi-dance\<close>

text \<open>An output parameter with an explicit buffer size whose mechanism is the ivi-dance.\<close>

definition is_ivi_dance_output :: "parameter \<Rightarrow> bool" where
  "is_ivi_dance_output p =
     (direction p = ''out'' \<and> has_explicit_buffer_size p \<and>
      map_option mechanism (param_size p) = Some ''ivi-dance'')"


subsection \<open>Further example metadata\<close>

definition example_ivi_string :: "string \<Rightarrow> parameter" where
  "example_ivi_string n =
     \<lparr>parameter_name = n, direction = ''out'', has_explicit_buffer_size = True,
      param_size = Some \<lparr>mechanism = ''ivi-dance'', size_value = ''bufferSize''\<rparr>,
      repeating_argument = False, is_list = False, ctypes_data_type = ''ctypes.c_char_p'',
      param_type = Some ''char[]''\<rparr>"

subsection \<open>Instantiation of outputs\<close>

text \<open>
  The instantiation policy by parameter shape, for one output parameter: nothing for a
  parameter named \<^verbatim>\<open>task\<close>; an empty sequence for a repeating output; for an output with an
  explicit buffer size, a zero-filled buffer of the declared element type, sized by the
  descriptor value when the output is a list and the mechanism is passed-in or
  passed-in-by-ptr, or by the custom size expression when the mechanism is custom-code, and
  nothing for any other mechanism; a zero-initialised scalar of the native type otherwise.
\<close>

definition spec_instantiation_lines :: "parameter \<Rightarrow> string list" where
  "spec_instantiation_lines p =
     (if parameter_name p = ''task'' then []
      else if repeating_argument p then [parameter_name p @ '' = []'']
      else if has_explicit_buffer_size p then
        (case param_size p of
           None \<Rightarrow> []
         | Some s \<Rightarrow>
             if is_list p \<and> mechanism s \<in> {''passed-in'', ''passed-in-by-ptr''} then
               [parameter_name p @ '' = numpy.zeros('' @ size_value s @ '', dtype=''
                  @ ctypes_data_type p @ '')'']
             else if mechanism s = ''custom-code'' then
               [''size = '' @ size_value s,
                parameter_name p @ '' = numpy.zeros(size, dtype='' @ ctypes_data_type p @ '')'']
             else [])
      else [parameter_name p @ '' = '' @ ctypes_data_type p @ ''()''])"

subsection \<open>Variable arguments\<close>

text \<open>
  The argument pushed for one repeating parameter: its indexed element, or a reference to
  its reserved element.
\<close>

definition spec_vararg_argument :: "parameter \<Rightarrow> string" where
  "spec_vararg_argument p =
     (if direction p = ''in'' then parameter_name p @ ''[index]''
      else ''ctypes.byref('' @ parameter_name p @ ''_element)'')"

text \<open>One argument append, its type-tag append and an empty line.\<close>

definition spec_vararg_lines :: "(parameter \<Rightarrow> string) \<Rightarrow> parameter \<Rightarrow> string list" where
  "spec_vararg_lines to_param_argtype p =
     [''args.append('' @ spec_vararg_argument p @ '')'',
      ''argtypes.append('' @ to_param_argtype p @ '')'',
      '''']"

text \<open>One element is created and appended to the collecting sequence of the parameter.\<close>

definition spec_element_lines :: "parameter \<Rightarrow> string list" where
  "spec_element_lines p =
     [parameter_name p @ ''_element = '' @ ctypes_data_type p @ ''()'',
      parameter_name p @ ''.append('' @ parameter_name p @ ''_element)'']"

text \<open>
  What the generated lines append to the list named \<open>l\<close>, in order: the expressions
  \<open>e\<close> of the lines \<^verbatim>\<open>l.append(e)\<close>.
\<close>

definition appended :: "string \<Rightarrow> string list \<Rightarrow> string list" where
  "appended l lines =
     map (\<lambda>s. butlast (drop (length l + 8) s)) (filter (prefix (l @ ''.append('')) lines)"

subsection \<open>Example outputs\<close>

definition example_task_out :: parameter where
  "example_task_out =
     \<lparr>parameter_name = ''task'', direction = ''out'', has_explicit_buffer_size = False,
      param_size = None, repeating_argument = False, is_list = False,
      ctypes_data_type = ''lib_importer.task_handle'', param_type = Some ''TaskHandle''\<rparr>"

definition example_read_array :: parameter where
  "example_read_array =
     \<lparr>parameter_name = ''read_array'', direction = ''out'', has_explicit_buffer_size = True,
      param_size = Some \<lparr>mechanism = ''passed-in'', size_value = ''array_size_in_samps''\<rparr>,
      repeating_argument = False, is_list = True, ctypes_data_type = ''numpy.float64'',
      param_type = Some ''float64[]''\<rparr>"

definition example_channel_name :: parameter where
  "example_channel_name =
     \<lparr>parameter_name = ''channel_name'', direction = ''in'', has_explicit_buffer_size = False,
      param_size = None, repeating_argument = True, is_list = False,
      ctypes_data_type = ''ctypes.c_char_p'', param_type = Some ''const char[]''\<rparr>"

definition example_state :: parameter where
  "example_state =
     \<lparr>parameter_name = ''state'', direction = ''out'', has_explicit_buffer_size = False,
      param_size = None, repeating_argument = False, is_list = False,
      ctypes_data_type = ''ctypes.c_double'', param_type = Some ''float64''\<rparr>"

subsection \<open>Trailing digits\<close>

text \<open>
  A pattern that never matches across the start of a digit run: group 2 does not match the
  empty text, its match lies within the text, and digits put after a text do not change
  the match.
\<close>

definition digit_blind :: "regex \<Rightarrow> bool" where
  "digit_blind r =
     (group2 r [] = None \<and>
      (\<forall>s k. group2 r s = Some k \<longrightarrow> k \<le> length s) \<and>
      (\<forall>s ds. list_all is_digit ds \<longrightarrow> group2 r (s @ ds) = group2 r s))"

subsection \<open>An example catalog\<close>

definition example_catalog :: "(string \<times> function_dict) list" where
  "example_catalog =
     [(''WriteRaw'', \<lparr>dict_parameters = [], c_function_name = None\<rparr>),
      (''RegisterDoneEvent'', \<lparr>dict_parameters = [], c_function_name = None\<rparr>),
      (''GetExtendedErrorInfo'',
         \<lparr>dict_parameters =
            [\<lparr>dict_name = ''errorString'',
              dict_size = Some \<lparr>dict_mechanism = Some ''ivi-dance'',
                                dict_value = Some ''bufferSize''\<rparr>,
              include_in_proto = None\<rparr>,
             \<lparr>dict_name = ''bufferSize'', dict_size = None, include_in_proto = None\<rparr>],
          c_function_name = None\<rparr>),
      (''GetErrorString'',
         \<lparr>dict_parameters =
            [\<lparr>dict_name = ''errorString'',
              dict_size = Some \<lparr>dict_mechanism = Some ''ivi-dance'',
                                dict_value = Some ''bufferSize''\<rparr>,
              include_in_proto = None\<rparr>,
             \<lparr>dict_name = ''bufferSize'', dict_size = None, include_in_proto = None\<rparr>],
          c_function_name = None\<rparr>)]"

section \<open>Theorems\<close>

subsection \<open>Return values\<close>

lemma return_values_loop_map:
  "return_values_loop ps acc = acc @ map spec_return_value ps"
  by (induction ps arbitrary: acc) (simp_all add: spec_return_value_def)

text \<open>
  C7: every output parameter of the interpreter parameters contributes exactly one return
  expression, in order, chosen by the shape policy with the precedence repeating, text
  (\<^verbatim>\<open>ctypes.c_char_p\<close>, decoded as ascii), list (\<^verbatim>\<open>.tolist()\<close>), task handle (the name
  itself), any other scalar (\<^verbatim>\<open>.value\<close>).
\<close>

theorem get_return_values_policy:
  "get_return_values f = map spec_return_value (get_interpreter_output_params f)"
  by (simp add: get_return_values_def return_values_loop_map)

theorem get_return_values_policy_witness:
  "get_return_values
     (example_function
        [example_data, example_state\<lparr>repeating_argument := True\<rparr>, example_ivi_string ''data'',
         example_read_array, example_task_out, example_written])
   = [''[state_element.value for state_element in state]'',
      ''data.value.decode('ascii')'',
      ''read_array.tolist()'',
      ''task'',
      ''samps_written.value'']"
  using get_return_values_policy[of "example_function
        [example_data, example_state\<lparr>repeating_argument := True\<rparr>, example_ivi_string ''data'',
         example_read_array, example_task_out, example_written]"]
  by (simp add: spec_return_value_def get_interpreter_output_params_def example_function_def
      example_data_def example_state_def example_ivi_string_def example_read_array_def
      example_task_out_def example_written_def)

subsection \<open>Call arguments\<close>

lemma find_snoc:
  "find P (xs @ [x]) =
     (case find P xs of None \<Rightarrow> (if P x then Some x else None) | Some y \<Rightarrow> Some y)"
  by (induction xs) auto

lemma find_Some_member: "find P xs = Some x \<Longrightarrow> x \<in> set xs \<and> P x"
  by (induction xs) (auto split: if_splits)

lemma last_supplier_Some:
  "last_supplier v ps = Some q \<Longrightarrow> q \<in> set ps \<and> supplies v q"
  unfolding last_supplier_def using find_Some_member[of "supplies v" "rev ps" q] by simp

text \<open>The dictionary after the first loop holds, for every slot, the entry of its last supplier.\<close>

lemma record_size_values_last:
  "size_well_formed ps \<Longrightarrow>
   record_size_values ps sv =
     Inr (\<lambda>v. case last_supplier v ps of None \<Rightarrow> sv v | Some q \<Rightarrow> Some (size_entry q))"
proof (induction ps arbitrary: sv)
  case Nil
  then show ?case by (simp add: last_supplier_def)
next
  case (Cons p ps)
  from Cons.prems have wf: "size_well_formed ps"
    and here: "has_explicit_buffer_size p \<longrightarrow> param_size p \<noteq> None"
    by (simp_all add: size_well_formed_def)
  show ?case
    using here
    by (auto simp: Cons.IH[OF wf] last_supplier_def find_snoc supplies_def size_slot_def
        size_entry_def size_expression_def is_size_supplier_def fun_eq_iff
        split: option.splits)
qed

lemma append_call_args_concat:
  "size_well_formed ps \<Longrightarrow>
   append_call_args ps sv acc =
     Inr (acc @ concat (map (\<lambda>p. spec_param_arg p @ spec_size_arg sv p) ps))"
proof (induction ps arbitrary: acc)
  case Nil
  then show ?case by simp
next
  case (Cons p ps)
  from Cons.prems have wf: "size_well_formed ps"
    and here: "has_explicit_buffer_size p \<longrightarrow> param_size p \<noteq> None"
    by (simp_all add: size_well_formed_def)
  show ?case
    using here
    by (auto simp: Cons.IH[OF wf] Let_def spec_param_arg_def spec_size_arg_def size_slot_def
        split: option.splits)
qed

lemma last_supplier_exists:
  "q \<in> set ps \<Longrightarrow> supplies v q \<Longrightarrow> last_supplier v ps \<noteq> None"
  unfolding last_supplier_def by (auto simp: find_None_iff)

text \<open>
  C2: when every parameter with an explicit buffer size carries its size descriptor, the
  call returns an argument list, and the list is the concatenation, in declared order, of
  what each interpreter parameter emits: its name for an \<^verbatim>\<open>in\<close> parameter and for an
  \<^verbatim>\<open>out\<close> parameter with an explicit buffer size, \<^verbatim>\<open>ctypes.byref\<close> of its name for an
  \<^verbatim>\<open>out\<close> parameter without one, followed by the recorded size expression when the entry
  recorded for its size slot names this parameter. The recorded dictionary is determined:
  a slot has an entry exactly when a parameter supplies it, the entry holds the name and
  the size expression of the supplier recorded for the slot, \<^verbatim>\<open>len(name)\<close> for an \<^verbatim>\<open>in\<close>
  supplier and \<^verbatim>\<open>temp_size\<close> for an \<^verbatim>\<open>out\<close> supplier with the ivi-dance mechanism, and
  the parameter recorded for a slot is followed by exactly that expression.
\<close>

theorem call_args_per_parameter:
  assumes "size_well_formed (interpreter_parameters f)"
  shows "\<exists>size_values.
           record_size_values (interpreter_parameters f) Map.empty = Inr size_values \<and>
           generate_interpreter_function_call_args f =
             Inr (concat (map (\<lambda>p. spec_param_arg p @ spec_size_arg size_values p)
                    (interpreter_parameters f))) \<and>
           (\<forall>v. size_values v
                  = map_option size_entry (last_supplier v (interpreter_parameters f))) \<and>
           (\<forall>v. (size_values v \<noteq> None)
                  = (\<exists>q \<in> set (interpreter_parameters f). supplies v q)) \<and>
           (\<forall>v e. size_values v = Some e \<longrightarrow>
              (\<exists>q \<in> set (interpreter_parameters f). supplies v q \<and> e = size_entry q)) \<and>
           (\<forall>v p. last_supplier v (interpreter_parameters f) = Some p \<longrightarrow>
              spec_size_arg size_values p = [size_expression p])"
proof -
  let ?ps = "interpreter_parameters f"
  let ?sv = "\<lambda>v. case last_supplier v ?ps of None \<Rightarrow> None | Some q \<Rightarrow> Some (size_entry q)"
  have rec: "record_size_values ?ps Map.empty = Inr ?sv"
    using record_size_values_last[OF assms, of Map.empty] by simp
  have gen: "generate_interpreter_function_call_args f =
      Inr (concat (map (\<lambda>p. spec_param_arg p @ spec_size_arg ?sv p) ?ps))"
    by (simp add: generate_interpreter_function_call_args_def rec
        append_call_args_concat[OF assms])
  have pin: "\<forall>v. ?sv v = map_option size_entry (last_supplier v ?ps)"
    by (simp split: option.splits)
  have dom: "\<forall>v. (?sv v \<noteq> None) = (\<exists>q \<in> set ?ps. supplies v q)"
  proof
    fix v
    show "(?sv v \<noteq> None) = (\<exists>q \<in> set ?ps. supplies v q)"
    proof (cases "last_supplier v ?ps")
      case None
      with last_supplier_exists[of _ ?ps v] show ?thesis by auto
    next
      case (Some q)
      with last_supplier_Some[OF Some] show ?thesis by auto
    qed
  qed
  have ent: "\<forall>v e. ?sv v = Some e \<longrightarrow> (\<exists>q \<in> set ?ps. supplies v q \<and> e = size_entry q)"
    by (auto split: option.splits dest: last_supplier_Some)
  have own: "\<forall>v p. last_supplier v ?ps = Some p \<longrightarrow> spec_size_arg ?sv p = [size_expression p]"
  proof (intro allI impI)
    fix v p
    assume l: "last_supplier v ?ps = Some p"
    from last_supplier_Some[OF l] have "size_slot p = Some v" by (simp add: supplies_def)
    with l show "spec_size_arg ?sv p = [size_expression p]"
      by (simp add: spec_size_arg_def size_entry_def)
  qed
  from rec gen pin dom ent own show ?thesis by blast
qed

theorem call_args_per_parameter_witness:
  "size_well_formed
     (interpreter_parameters
        (example_function [example_data, example_ivi_string ''name'', example_written])) \<and>
   (\<exists>size_values.
      record_size_values
        (interpreter_parameters
           (example_function [example_data, example_ivi_string ''name'', example_written]))
        Map.empty = Inr size_values \<and>
      size_values ''numSamps'' = Some \<lparr>sp_name = ''data'', sp_size = ''len(data)''\<rparr> \<and>
      size_values ''bufferSize'' = Some \<lparr>sp_name = ''name'', sp_size = ''temp_size''\<rparr> \<and>
      size_values ''samps_written'' = None \<and>
      generate_interpreter_function_call_args
          (example_function [example_data, example_ivi_string ''name'', example_written]) =
        Inr (concat (map (\<lambda>p. spec_param_arg p @ spec_size_arg size_values p)
               (interpreter_parameters
                  (example_function
                     [example_data, example_ivi_string ''name'', example_written]))))) \<and>
   generate_interpreter_function_call_args
       (example_function [example_data, example_ivi_string ''name'', example_written]) =
     Inr [''data'', ''len(data)'', ''name'', ''temp_size'', ''ctypes.byref(samps_written)'']"
proof -
  let ?f = "example_function [example_data, example_ivi_string ''name'', example_written]"
  have wf: "size_well_formed (interpreter_parameters ?f)"
    by (simp add: size_well_formed_def example_function_def example_data_def
        example_ivi_string_def example_written_def)
  have ev: "generate_interpreter_function_call_args ?f =
        Inr [''data'', ''len(data)'', ''name'', ''temp_size'', ''ctypes.byref(samps_written)'']"
    by (simp add: generate_interpreter_function_call_args_def example_function_def
        example_data_def example_ivi_string_def example_written_def)
  have l1: "map_option size_entry (last_supplier ''numSamps'' (interpreter_parameters ?f))
      = Some \<lparr>sp_name = ''data'', sp_size = ''len(data)''\<rparr>"
    and l2: "map_option size_entry (last_supplier ''bufferSize'' (interpreter_parameters ?f))
      = Some \<lparr>sp_name = ''name'', sp_size = ''temp_size''\<rparr>"
    and l3: "map_option size_entry (last_supplier ''samps_written'' (interpreter_parameters ?f))
      = None"
    by (simp_all add: last_supplier_def supplies_def size_slot_def is_size_supplier_def
        size_entry_def size_expression_def example_function_def example_data_def
        example_ivi_string_def example_written_def)
  from call_args_per_parameter[OF wf] obtain sv where
    r: "record_size_values (interpreter_parameters ?f) Map.empty = Inr sv"
    and g: "generate_interpreter_function_call_args ?f =
        Inr (concat (map (\<lambda>p. spec_param_arg p @ spec_size_arg sv p)
               (interpreter_parameters ?f)))"
    and pin: "\<forall>v. sv v = map_option size_entry (last_supplier v (interpreter_parameters ?f))"
    by blast
  from pin l1 l2 l3 have
    "sv ''numSamps'' = Some \<lparr>sp_name = ''data'', sp_size = ''len(data)''\<rparr>"
    "sv ''bufferSize'' = Some \<lparr>sp_name = ''name'', sp_size = ''temp_size''\<rparr>"
    "sv ''samps_written'' = None"
    by simp_all
  with wf r g ev show ?thesis by blast
qed

text \<open>
  C4, as the code decides it: the dictionary keeps, for every size slot, the entry of the
  last parameter in declaration order that supplies the slot (a later supplier overwrites an
  earlier one), and the size expression emitted after a parameter is that last supplier's,
  emitted when the last supplier carries the parameter's name.
\<close>

theorem size_expression_of_last_supplier:
  assumes "size_well_formed (interpreter_parameters f)"
  shows "(\<exists>size_values.
            record_size_values (interpreter_parameters f) Map.empty = Inr size_values \<and>
            (\<forall>v. size_values v =
                   map_option size_entry (last_supplier v (interpreter_parameters f)))) \<and>
         generate_interpreter_function_call_args f =
           Inr (concat (map (\<lambda>p. spec_param_arg p
                               @ spec_last_size_arg (interpreter_parameters f) p)
                  (interpreter_parameters f)))"
proof -
  let ?ps = "interpreter_parameters f"
  let ?sv = "\<lambda>v. case last_supplier v ?ps of None \<Rightarrow> None | Some q \<Rightarrow> Some (size_entry q)"
  have rec: "record_size_values ?ps Map.empty = Inr ?sv"
    using record_size_values_last[OF assms, of Map.empty] by simp
  have sv: "\<forall>v. ?sv v = map_option size_entry (last_supplier v ?ps)"
    by (simp split: option.splits)
  have same: "spec_size_arg ?sv p = spec_last_size_arg ?ps p" for p
    by (simp add: spec_size_arg_def spec_last_size_arg_def size_entry_def split: option.splits)
  have gen: "generate_interpreter_function_call_args f =
      Inr (concat (map (\<lambda>p. spec_param_arg p @ spec_last_size_arg ?ps p) ?ps))"
    by (simp add: generate_interpreter_function_call_args_def rec
        append_call_args_concat[OF assms] same)
  from rec sv gen show ?thesis by blast
qed

text \<open>
  Two arrays share the slot \<^verbatim>\<open>arraySize\<close>. The first supplier in declaration order is
  \<^verbatim>\<open>expir_state_array\<close>, whose expression is \<^verbatim>\<open>len(expir_state_array)\<close>; the call site
  gets \<^verbatim>\<open>len(output_type_array)\<close>, after the second array.
\<close>

theorem first_supplier_counterexample:
  "find (supplies ''arraySize'') [example_expir_states, example_output_types]
     = Some example_expir_states \<and>
   size_expression example_expir_states = ''len(expir_state_array)'' \<and>
   generate_interpreter_function_call_args
       (example_function [example_expir_states, example_output_types])
     = Inr [''expir_state_array'', ''output_type_array'', ''len(output_type_array)'']"
  by (simp add: generate_interpreter_function_call_args_def example_function_def
      example_expir_states_def example_output_types_def supplies_def size_slot_def
      is_size_supplier_def size_expression_def)

theorem size_expression_of_last_supplier_witness:
  "size_well_formed
     (interpreter_parameters (example_function [example_expir_states, example_output_types])) \<and>
   last_supplier ''arraySize'' [example_expir_states, example_output_types]
     = Some example_output_types \<and>
   generate_interpreter_function_call_args
       (example_function [example_expir_states, example_output_types])
     = Inr (concat (map (\<lambda>p. spec_param_arg p
                         @ spec_last_size_arg [example_expir_states, example_output_types] p)
                  [example_expir_states, example_output_types])) \<and>
   concat (map (\<lambda>p. spec_param_arg p
                  @ spec_last_size_arg [example_expir_states, example_output_types] p)
             [example_expir_states, example_output_types])
     = [''expir_state_array'', ''output_type_array'', ''len(output_type_array)'']"
proof -
  have wf: "size_well_formed
      (interpreter_parameters (example_function [example_expir_states, example_output_types]))"
    by (simp add: size_well_formed_def example_function_def example_expir_states_def
        example_output_types_def)
  have ls: "last_supplier ''arraySize'' [example_expir_states, example_output_types]
      = Some example_output_types"
    by (simp add: last_supplier_def supplies_def size_slot_def is_size_supplier_def
        example_expir_states_def example_output_types_def)
  have ev: "concat (map (\<lambda>p. spec_param_arg p
                  @ spec_last_size_arg [example_expir_states, example_output_types] p)
             [example_expir_states, example_output_types])
     = [''expir_state_array'', ''output_type_array'', ''len(output_type_array)'']"
    by (simp add: spec_param_arg_def spec_last_size_arg_def last_supplier_def supplies_def
        size_slot_def is_size_supplier_def size_expression_def example_expir_states_def
        example_output_types_def)
  from size_expression_of_last_supplier[OF wf] wf ls ev show ?thesis
    by (simp add: example_function_def)
qed

subsection \<open>A sequence and its size parameter\<close>



subsection \<open>The call template\<close>

lemma select_ivi_dance_filter:
  "size_well_formed ps \<Longrightarrow>
   select_ivi_dance (filter has_explicit_buffer_size (filter (\<lambda>p. direction p = ''out'') ps))
     = Inr (filter is_ivi_dance_output ps)"
  by (induction ps)
    (auto simp: size_well_formed_def is_ivi_dance_output_def split: option.splits sum.splits)

text \<open>
  C1, as the code decides it: the template is chosen in priority order. A streaming function
  gets the event template and, failing that, a function with a repeating parameter gets the
  variable-argument template, whatever its outputs. For any other function (with the size
  descriptors present), exactly one output parameter with an explicit buffer size and the
  ivi-dance mechanism selects the two-pass template, and two or more raise
  \<^verbatim>\<open>NotImplementedError\<close>; \<^verbatim>\<open>get_output_param_with_ivi_dance_mechanism\<close> itself
  returns the single such parameter, and raises for two or more, for every function.
\<close>

theorem call_template_ivi_dance:
  assumes "size_well_formed (base_parameters f)"
  shows "(length (filter is_ivi_dance_output (base_parameters f)) = 1 \<longrightarrow>
            get_output_param_with_ivi_dance_mechanism f
              = Inr (Some (hd (filter is_ivi_dance_output (base_parameters f)))) \<and>
            (\<not> stream_response f \<and> get_varargs_parameters f = [] \<longrightarrow>
               get_c_function_call_template f = Inr ''/double_c_function_call.py.mako'')) \<and>
         (length (filter is_ivi_dance_output (base_parameters f)) \<ge> 2 \<longrightarrow>
            get_output_param_with_ivi_dance_mechanism f = Inl NotImplementedError \<and>
            (\<not> stream_response f \<and> get_varargs_parameters f = [] \<longrightarrow>
               get_c_function_call_template f = Inl NotImplementedError)) \<and>
         (stream_response f \<longrightarrow>
            get_c_function_call_template f = Inr ''/event_function_call.py.mako'') \<and>
         (\<not> stream_response f \<and> get_varargs_parameters f \<noteq> [] \<longrightarrow>
            get_c_function_call_template f = Inr ''/exec_cdecl_c_function_call.py.mako'')"
proof -
  let ?ivi = "filter is_ivi_dance_output (base_parameters f)"
  have sel: "get_output_param_with_ivi_dance_mechanism f =
      (if length ?ivi > 1 then Inl NotImplementedError
       else if length ?ivi = 1 then Inr (Some (?ivi ! 0)) else Inr None)"
    unfolding get_output_param_with_ivi_dance_mechanism_def get_output_params_def Let_def
      select_ivi_dance_filter[OF assms]
    by simp
  have one: "length ?ivi = 1 \<Longrightarrow> ?ivi ! 0 = hd ?ivi"
    by (cases ?ivi) simp_all
  show ?thesis
    using one
    by (auto simp: sel get_c_function_call_template_def
        has_parameter_with_ivi_dance_size_mechanism_def)
qed

text \<open>
  A streaming function with one, and one with two, ivi-dance outputs: both get the event
  template, and nothing is raised.
\<close>

theorem call_template_counterexample:
  "length (filter is_ivi_dance_output
      (base_parameters ((example_function [example_ivi_string ''data''])\<lparr>stream_response := True\<rparr>))) = 1 \<and>
   get_c_function_call_template
      ((example_function [example_ivi_string ''data''])\<lparr>stream_response := True\<rparr>)
     = Inr ''/event_function_call.py.mako'' \<and>
   length (filter is_ivi_dance_output
      (base_parameters ((example_function [example_ivi_string ''data'', example_ivi_string ''name''])
          \<lparr>stream_response := True\<rparr>))) = 2 \<and>
   get_c_function_call_template
      ((example_function [example_ivi_string ''data'', example_ivi_string ''name''])
          \<lparr>stream_response := True\<rparr>)
     = Inr ''/event_function_call.py.mako''"
  by (simp add: get_c_function_call_template_def example_function_def example_ivi_string_def
      is_ivi_dance_output_def)

theorem call_template_ivi_dance_witness:
  "size_well_formed (base_parameters (example_function [example_ivi_string ''data''])) \<and>
   length (filter is_ivi_dance_output
     (base_parameters (example_function [example_ivi_string ''data'']))) = 1 \<and>
   \<not> stream_response (example_function [example_ivi_string ''data'']) \<and>
   get_varargs_parameters (example_function [example_ivi_string ''data'']) = [] \<and>
   get_c_function_call_template (example_function [example_ivi_string ''data''])
     = Inr ''/double_c_function_call.py.mako'' \<and>
   size_well_formed (base_parameters
     (example_function [example_ivi_string ''data'', example_ivi_string ''name''])) \<and>
   2 \<le> length (filter is_ivi_dance_output (base_parameters
     (example_function [example_ivi_string ''data'', example_ivi_string ''name'']))) \<and>
   \<not> stream_response
     (example_function [example_ivi_string ''data'', example_ivi_string ''name'']) \<and>
   get_varargs_parameters
     (example_function [example_ivi_string ''data'', example_ivi_string ''name'']) = [] \<and>
   get_c_function_call_template
     (example_function [example_ivi_string ''data'', example_ivi_string ''name''])
     = Inl NotImplementedError"
proof -
  let ?f1 = "example_function [example_ivi_string ''data'']"
  let ?f2 = "example_function [example_ivi_string ''data'', example_ivi_string ''name'']"
  have wf1: "size_well_formed (base_parameters ?f1)"
    and wf2: "size_well_formed (base_parameters ?f2)"
    by (simp_all add: size_well_formed_def example_function_def example_ivi_string_def)
  have n1: "length (filter is_ivi_dance_output (base_parameters ?f1)) = 1"
    and n2: "2 \<le> length (filter is_ivi_dance_output (base_parameters ?f2))"
    by (simp_all add: is_ivi_dance_output_def example_function_def example_ivi_string_def)
  have s1: "\<not> stream_response ?f1 \<and> get_varargs_parameters ?f1 = []"
    and s2: "\<not> stream_response ?f2 \<and> get_varargs_parameters ?f2 = []"
    by (simp_all add: get_varargs_parameters_def example_function_def example_ivi_string_def)
  from call_template_ivi_dance[OF wf1] n1 s1
  have t1: "get_c_function_call_template ?f1 = Inr ''/double_c_function_call.py.mako''"
    by blast
  from call_template_ivi_dance[OF wf2] n2 s2
  have t2: "get_c_function_call_template ?f2 = Inl NotImplementedError"
    by blast
  from wf1 wf2 n1 n2 s1 s2 t1 t2 show ?thesis by blast
qed

subsection \<open>Instantiation of outputs\<close>

lemma instantiation_lines_loop_concat:
  "size_well_formed ps \<Longrightarrow>
   instantiation_lines_loop ps acc = Inr (acc @ concat (map spec_instantiation_lines ps))"
proof (induction ps arbitrary: acc)
  case Nil
  then show ?case by simp
next
  case (Cons p ps)
  from Cons.prems have wf: "size_well_formed ps"
    and here: "has_explicit_buffer_size p \<longrightarrow> param_size p \<noteq> None"
    by (simp_all add: size_well_formed_def)
  show ?case
    using here
    by (auto simp: Cons.IH[OF wf] spec_instantiation_lines_def split: option.splits)
qed

text \<open>
  C6, as the code decides it: with the size descriptors present, the instantiation lines are
  the task-handle statement first when the function is the task-creation entry point,
  followed, for every output parameter in order, by the lines of the shape policy; the policy
  gives no line to an output named \<^verbatim>\<open>task\<close>, nor to an output with an explicit buffer size
  that is neither a passed-in list nor sized by custom code.
\<close>

theorem instantiation_lines_policy:
  assumes "size_well_formed (get_interpreter_output_params f)"
  shows "get_instantiation_lines_for_output f =
           Inr ((if is_init_method f then [''task = lib_importer.task_handle(0)''] else [])
                @ concat (map spec_instantiation_lines (get_interpreter_output_params f))) \<and>
         (is_init_method f \<longrightarrow>
            (\<exists>rest. get_instantiation_lines_for_output f
               = Inr (''task = lib_importer.task_handle(0)'' # rest)))"
  by (simp add: get_instantiation_lines_for_output_def instantiation_lines_loop_concat[OF assms])

text \<open>
  An output named \<^verbatim>\<open>task\<close> of a function that is not the task-creation entry point is a
  scalar without an explicit buffer size, and gets no line.
\<close>

theorem task_output_counterexample:
  "get_interpreter_output_params (example_function [example_task_out]) = [example_task_out] \<and>
   \<not> is_init_method (example_function [example_task_out]) \<and>
   \<not> repeating_argument example_task_out \<and>
   \<not> has_explicit_buffer_size example_task_out \<and>
   get_instantiation_lines_for_output (example_function [example_task_out]) = Inr []"
  by (simp add: get_instantiation_lines_for_output_def get_interpreter_output_params_def
      example_function_def example_task_out_def)

theorem instantiation_lines_policy_witness:
  "size_well_formed (get_interpreter_output_params
      ((example_function [example_data, example_task_out, example_read_array, example_written])
         \<lparr>is_init_method := True\<rparr>)) \<and>
   get_instantiation_lines_for_output
      ((example_function [example_data, example_task_out, example_read_array, example_written])
         \<lparr>is_init_method := True\<rparr>)
     = Inr [''task = lib_importer.task_handle(0)'',
            ''read_array = numpy.zeros(array_size_in_samps, dtype=numpy.float64)'',
            ''samps_written = ctypes.c_int()'']"
proof -
  let ?f = "(example_function [example_data, example_task_out, example_read_array, example_written])
         \<lparr>is_init_method := True\<rparr>"
  have outs: "get_interpreter_output_params ?f
      = [example_task_out, example_read_array, example_written]"
    by (simp add: get_interpreter_output_params_def example_function_def example_data_def
        example_task_out_def example_read_array_def example_written_def)
  have wf: "size_well_formed (get_interpreter_output_params ?f)"
    unfolding outs
    by (simp add: size_well_formed_def example_task_out_def example_read_array_def
        example_written_def)
  have init: "is_init_method ?f" by (simp add: example_function_def)
  have ev: "concat (map spec_instantiation_lines
        [example_task_out, example_read_array, example_written])
      = [''read_array = numpy.zeros(array_size_in_samps, dtype=numpy.float64)'',
         ''samps_written = ctypes.c_int()'']"
    by (simp add: spec_instantiation_lines_def example_task_out_def example_read_array_def
        example_written_def)
  show ?thesis
    using instantiation_lines_policy[OF wf] wf init ev unfolding outs by simp
qed

lemma spec_instantiation_lines_shape:
  "l \<in> set (spec_instantiation_lines p) \<Longrightarrow>
   suffix '']'' l \<or> CHR '','' \<in> set l \<or> prefix ''size'' l \<or> suffix ''()'' l"
  by (auto simp: spec_instantiation_lines_def suffix_to_prefix split: if_splits option.splits)

lemma spec_instantiation_lines_no_task_handle:
  "''task = lib_importer.task_handle(0)'' \<notin> set (spec_instantiation_lines p)"
proof
  assume "''task = lib_importer.task_handle(0)'' \<in> set (spec_instantiation_lines p)"
  from spec_instantiation_lines_shape[OF this] show False
    by (simp add: suffix_to_prefix)
qed

lemma output_filter_commute:
  "filter (\<lambda>p. direction p = ''out'') (filter (\<lambda>p. parameter_name p \<noteq> ''task'') ps)
     = filter (\<lambda>p. parameter_name p \<noteq> ''task'') (filter (\<lambda>p. direction p = ''out'') ps)"
  by (induction ps) simp_all

lemma instantiation_lines_loop_skip_task:
  "instantiation_lines_loop (filter (\<lambda>p. parameter_name p \<noteq> ''task'') ps) acc
     = instantiation_lines_loop ps acc"
  by (induction ps arbitrary: acc) (auto split: option.splits)

lemma instantiation_lines_loop_Inr:
  "instantiation_lines_loop ps acc = Inr ls \<Longrightarrow>
   ls = acc @ concat (map spec_instantiation_lines ps)"
proof (induction ps arbitrary: acc)
  case Nil
  then show ?case by simp
next
  case (Cons p ps)
  show ?case
    using Cons.prems
    by (auto simp: spec_instantiation_lines_def split: if_splits option.splits
        dest!: Cons.IH)
qed

text \<open>
  C10: the instantiation lines do not change when the parameters named \<^verbatim>\<open>task\<close> are
  removed from the interpreter parameters; whenever lines are returned, the task-handle
  statement is among them exactly when the function is the task-creation entry point; and a
  function that is not, whose outputs are all named \<^verbatim>\<open>task\<close>, gets no line at all.
\<close>

theorem task_parameter_never_instantiated:
  "get_instantiation_lines_for_output f =
     get_instantiation_lines_for_output
       (f\<lparr>interpreter_parameters :=
            filter (\<lambda>p. parameter_name p \<noteq> ''task'') (interpreter_parameters f)\<rparr>) \<and>
   (\<forall>ls. get_instantiation_lines_for_output f = Inr ls \<longrightarrow>
      (''task = lib_importer.task_handle(0)'' \<in> set ls) = is_init_method f) \<and>
   (\<not> is_init_method f \<and>
    list_all (\<lambda>p. parameter_name p = ''task'') (get_interpreter_output_params f) \<longrightarrow>
      get_instantiation_lines_for_output f = Inr [])"
proof (intro conjI allI impI)
  have "get_interpreter_output_params
          (f\<lparr>interpreter_parameters :=
               filter (\<lambda>p. parameter_name p \<noteq> ''task'') (interpreter_parameters f)\<rparr>)
        = filter (\<lambda>p. parameter_name p \<noteq> ''task'') (get_interpreter_output_params f)"
    unfolding get_interpreter_output_params_def
    by (simp del: filter_filter add: output_filter_commute)
  then show "get_instantiation_lines_for_output f =
     get_instantiation_lines_for_output
       (f\<lparr>interpreter_parameters :=
            filter (\<lambda>p. parameter_name p \<noteq> ''task'') (interpreter_parameters f)\<rparr>)"
    by (simp add: get_instantiation_lines_for_output_def instantiation_lines_loop_skip_task)
next
  fix ls
  assume "get_instantiation_lines_for_output f = Inr ls"
  then have "ls = (if is_init_method f then [''task = lib_importer.task_handle(0)''] else [])
      @ concat (map spec_instantiation_lines (get_interpreter_output_params f))"
    unfolding get_instantiation_lines_for_output_def by (rule instantiation_lines_loop_Inr)
  then show "(''task = lib_importer.task_handle(0)'' \<in> set ls) = is_init_method f"
    using spec_instantiation_lines_no_task_handle by auto
next
  assume a: "\<not> is_init_method f \<and>
    list_all (\<lambda>p. parameter_name p = ''task'') (get_interpreter_output_params f)"
  then have "filter (\<lambda>p. parameter_name p \<noteq> ''task'') (get_interpreter_output_params f) = []"
    by (auto simp: list_all_iff filter_empty_conv)
  with instantiation_lines_loop_skip_task[of "get_interpreter_output_params f" "[]"] a
  show "get_instantiation_lines_for_output f = Inr []"
    by (simp add: get_instantiation_lines_for_output_def)
qed

theorem task_parameter_never_instantiated_witness:
  "get_instantiation_lines_for_output (example_function [example_task_out, example_written])
     = Inr [''samps_written = ctypes.c_int()''] \<and>
   get_instantiation_lines_for_output
     ((example_function [example_task_out, example_written])
        \<lparr>interpreter_parameters :=
           filter (\<lambda>p. parameter_name p \<noteq> ''task'')
             (interpreter_parameters (example_function [example_task_out, example_written]))\<rparr>)
     = Inr [''samps_written = ctypes.c_int()''] \<and>
   (''task = lib_importer.task_handle(0)'' \<in> set [''samps_written = ctypes.c_int()''])
     = is_init_method (example_function [example_task_out, example_written]) \<and>
   \<not> is_init_method (example_function [example_task_out]) \<and>
   list_all (\<lambda>p. parameter_name p = ''task'')
     (get_interpreter_output_params (example_function [example_task_out])) \<and>
   get_instantiation_lines_for_output (example_function [example_task_out]) = Inr []"
proof -
  let ?f = "example_function [example_task_out, example_written]"
  let ?g = "example_function [example_task_out]"
  have ev: "get_instantiation_lines_for_output ?f = Inr [''samps_written = ctypes.c_int()'']"
    by (simp add: get_instantiation_lines_for_output_def get_interpreter_output_params_def
        example_function_def example_task_out_def example_written_def)
  have pre: "\<not> is_init_method ?g \<and>
      list_all (\<lambda>p. parameter_name p = ''task'') (get_interpreter_output_params ?g)"
    by (simp add: get_interpreter_output_params_def example_function_def example_task_out_def)
  from task_parameter_never_instantiated[of ?f] ev
  have a: "get_instantiation_lines_for_output
     (?f\<lparr>interpreter_parameters :=
           filter (\<lambda>p. parameter_name p \<noteq> ''task'') (interpreter_parameters ?f)\<rparr>)
     = Inr [''samps_written = ctypes.c_int()'']"
    and b: "(''task = lib_importer.task_handle(0)'' \<in> set [''samps_written = ctypes.c_int()''])
     = is_init_method ?f"
    by simp_all
  from task_parameter_never_instantiated[of ?g] pre
  have c: "get_instantiation_lines_for_output ?g = Inr []" by blast
  from ev a b pre c show ?thesis by blast
qed

subsection \<open>Variable arguments\<close>

lemma argument_definition_loop_concat:
  "argument_definition_loop t ps acc = acc @ concat (map (spec_vararg_lines t) ps)"
  by (induction ps arbitrary: acc)
    (simp_all add: spec_vararg_lines_def spec_vararg_argument_def Let_def)

lemma varargs_instantiation_loop_concat:
  "varargs_instantiation_loop ps acc = acc @ concat (map spec_element_lines ps)"
  by (induction ps arbitrary: acc) (simp_all add: spec_element_lines_def)

lemma appended_args:
  "appended ''args'' (concat (map (spec_vararg_lines t) ps)) = map spec_vararg_argument ps"
  by (induction ps) (simp_all add: appended_def spec_vararg_lines_def)

lemma appended_argtypes:
  "appended ''argtypes'' (concat (map (spec_vararg_lines t) ps)) = map t ps"
  by (induction ps) (simp_all add: appended_def spec_vararg_lines_def)

text \<open>
  C9: the lines for the repeating parameters are, per parameter and in order, one append to
  \<^verbatim>\<open>args\<close> (the indexed element of an \<^verbatim>\<open>in\<close> parameter, a reference to the reserved
  element otherwise) immediately followed by one append to \<^verbatim>\<open>argtypes\<close>; so what is
  appended to \<^verbatim>\<open>args\<close> and to \<^verbatim>\<open>argtypes\<close> are two lists with one entry per parameter, in
  the parameters' order. For a function with a repeating parameter the instantiation lines
  create and append exactly one element per output parameter; otherwise there are none.
\<close>

theorem vararg_lines_lockstep:
  "get_argument_definition_lines_for_varargs to_param_argtype ps
     = concat (map (spec_vararg_lines to_param_argtype) ps) \<and>
   appended ''args'' (get_argument_definition_lines_for_varargs to_param_argtype ps)
     = map spec_vararg_argument ps \<and>
   appended ''argtypes'' (get_argument_definition_lines_for_varargs to_param_argtype ps)
     = map to_param_argtype ps \<and>
   get_instantiation_lines_for_varargs f
     = (if get_varargs_parameters f = [] then []
        else concat (map spec_element_lines (output_parameters f)))"
  by (simp add: get_argument_definition_lines_for_varargs_def argument_definition_loop_concat
      appended_args appended_argtypes get_instantiation_lines_for_varargs_def
      varargs_instantiation_loop_concat)

theorem vararg_lines_lockstep_witness:
  "get_argument_definition_lines_for_varargs ctypes_data_type
       [example_channel_name, example_state]
     = [''args.append(channel_name[index])'', ''argtypes.append(ctypes.c_char_p)'', [],
        ''args.append(ctypes.byref(state_element))'', ''argtypes.append(ctypes.c_double)'', []] \<and>
   appended ''args'' (get_argument_definition_lines_for_varargs ctypes_data_type
       [example_channel_name, example_state])
     = [''channel_name[index]'', ''ctypes.byref(state_element)''] \<and>
   appended ''argtypes'' (get_argument_definition_lines_for_varargs ctypes_data_type
       [example_channel_name, example_state])
     = [''ctypes.c_char_p'', ''ctypes.c_double''] \<and>
   get_instantiation_lines_for_varargs (example_function [example_channel_name, example_state])
     = [''state_element = ctypes.c_double()'', ''state.append(state_element)'']"
proof -
  let ?ps = "[example_channel_name, example_state]"
  note t = vararg_lines_lockstep[of ctypes_data_type ?ps "example_function ?ps"]
  have e1: "concat (map (spec_vararg_lines ctypes_data_type) ?ps)
     = [''args.append(channel_name[index])'', ''argtypes.append(ctypes.c_char_p)'', [],
        ''args.append(ctypes.byref(state_element))'', ''argtypes.append(ctypes.c_double)'', []]"
    by (simp add: spec_vararg_lines_def spec_vararg_argument_def example_channel_name_def
        example_state_def)
  have e2: "map spec_vararg_argument ?ps
     = [''channel_name[index]'', ''ctypes.byref(state_element)'']"
    by (simp add: spec_vararg_argument_def example_channel_name_def example_state_def)
  have e3: "map ctypes_data_type ?ps = [''ctypes.c_char_p'', ''ctypes.c_double'']"
    by (simp add: example_channel_name_def example_state_def)
  have e4: "(if get_varargs_parameters (example_function ?ps) = [] then []
        else concat (map spec_element_lines (output_parameters (example_function ?ps))))
     = [''state_element = ctypes.c_double()'', ''state.append(state_element)'']"
    by (simp add: get_varargs_parameters_def example_function_def spec_element_lines_def
        example_channel_name_def example_state_def)
  from t show ?thesis unfolding e1 e2 e3 e4 .
qed

subsection \<open>Metadata ingestion\<close>

lemma interpreter_functions_loop_map:
  "interpreter_functions_loop cat acc =
     acc @ map (\<lambda>(name, data).
                  \<lparr>function_name = normalize_function_name name,
                   function_data =
                     data\<lparr>c_function_name := Some name,
                          dict_parameters :=
                            filter (\<lambda>p. Some (dict_name p) \<notin> set
                                      (get_skippable_params_for_interpreter_func
                                         (data\<lparr>c_function_name := Some name\<rparr>)))
                              (dict_parameters data)\<rparr>\<rparr>)
             (filter (\<lambda>(name, data). name \<notin> set INTERPRETER_IGNORED_FUNCTIONS) cat)"
  by (induction cat arbitrary: acc) (auto simp: Let_def)

text \<open>
  C5, as the code decides it: the returned sequence is sorted by normalized function name;
  every returned function comes from a catalog entry whose native name is not in
  \<^const>\<open>INTERPRETER_IGNORED_FUNCTIONS\<close>, and carries that native name and its normalization;
  every catalog entry whose native name is not in that list is returned, one function per
  entry. \<^const>\<open>LIBRARY_INTERPRETER_IGNORED_FUNCTIONS\<close>, the event-registration primitives,
  is disjoint from the list, so ingestion keeps those functions.
\<close>

theorem ingestion_filters_and_sorts:
  "sorted (map function_name (get_interpreter_functions cat)) \<and>
   (\<forall>x \<in> set (get_interpreter_functions cat).
      \<exists>n \<in> fst ` set cat.
        c_function_name (function_data x) = Some n \<and>
        n \<notin> set INTERPRETER_IGNORED_FUNCTIONS \<and>
        function_name x = normalize_function_name n) \<and>
   (\<forall>n \<in> fst ` set cat.
      n \<notin> set INTERPRETER_IGNORED_FUNCTIONS \<longrightarrow>
        (\<exists>x \<in> set (get_interpreter_functions cat).
           c_function_name (function_data x) = Some n)) \<and>
   length (get_interpreter_functions cat)
     = length (filter (\<lambda>(name, data). name \<notin> set INTERPRETER_IGNORED_FUNCTIONS) cat) \<and>
   set LIBRARY_INTERPRETER_IGNORED_FUNCTIONS \<inter> set INTERPRETER_IGNORED_FUNCTIONS = {}"
proof (intro conjI)
  show "sorted (map function_name (get_interpreter_functions cat))"
    by (simp add: get_interpreter_functions_def)
  show "\<forall>x \<in> set (get_interpreter_functions cat).
      \<exists>n \<in> fst ` set cat.
        c_function_name (function_data x) = Some n \<and>
        n \<notin> set INTERPRETER_IGNORED_FUNCTIONS \<and>
        function_name x = normalize_function_name n"
    by (force simp: get_interpreter_functions_def interpreter_functions_loop_map)
  show "\<forall>n \<in> fst ` set cat.
      n \<notin> set INTERPRETER_IGNORED_FUNCTIONS \<longrightarrow>
        (\<exists>x \<in> set (get_interpreter_functions cat).
           c_function_name (function_data x) = Some n)"
    by (force simp: get_interpreter_functions_def interpreter_functions_loop_map image_iff)
  show "length (get_interpreter_functions cat)
     = length (filter (\<lambda>(name, data). name \<notin> set INTERPRETER_IGNORED_FUNCTIONS) cat)"
    by (simp add: get_interpreter_functions_def interpreter_functions_loop_map)
  show "set LIBRARY_INTERPRETER_IGNORED_FUNCTIONS \<inter> set INTERPRETER_IGNORED_FUNCTIONS = {}"
    by (simp add: LIBRARY_INTERPRETER_IGNORED_FUNCTIONS_def INTERPRETER_IGNORED_FUNCTIONS_def)
qed

text \<open>
  A catalog holding the event-registration primitive \<^verbatim>\<open>RegisterDoneEvent\<close>: ingestion
  returns it.
\<close>

theorem event_registration_counterexample:
  "''RegisterDoneEvent'' \<in> set LIBRARY_INTERPRETER_IGNORED_FUNCTIONS \<and>
   get_interpreter_functions
     [(''RegisterDoneEvent'', \<lparr>dict_parameters = [], c_function_name = None\<rparr>)]
   = [\<lparr>function_name = ''register_done_event'',
       function_data =
         \<lparr>dict_parameters = [], c_function_name = Some ''RegisterDoneEvent''\<rparr>\<rparr>]"
  by code_simp

theorem ingestion_filters_and_sorts_witness:
  "sorted (map function_name (get_interpreter_functions example_catalog)) \<and>
   map function_name (get_interpreter_functions example_catalog)
     = [''get_error_string'', ''register_done_event'', ''write_raw''] \<and>
   map (\<lambda>x. (c_function_name (function_data x),
              map dict_name (dict_parameters (function_data x))))
       (get_interpreter_functions example_catalog)
     = [(Some ''GetErrorString'', [''errorString'']), (Some ''RegisterDoneEvent'', []),
        (Some ''WriteRaw'', [])] \<and>
   ''GetExtendedErrorInfo'' \<in> set INTERPRETER_IGNORED_FUNCTIONS \<and>
   ''GetExtendedErrorInfo'' \<in> fst ` set example_catalog"
proof -
  have a: "map function_name (get_interpreter_functions example_catalog)
     = [''get_error_string'', ''register_done_event'', ''write_raw'']"
    by code_simp
  have b: "map (\<lambda>x. (c_function_name (function_data x),
              map dict_name (dict_parameters (function_data x))))
       (get_interpreter_functions example_catalog)
     = [(Some ''GetErrorString'', [''errorString'']), (Some ''RegisterDoneEvent'', []),
        (Some ''WriteRaw'', [])]"
    by code_simp
  have c: "''GetExtendedErrorInfo'' \<in> set INTERPRETER_IGNORED_FUNCTIONS"
    by (simp add: INTERPRETER_IGNORED_FUNCTIONS_def)
  have d: "''GetExtendedErrorInfo'' \<in> fst ` set example_catalog"
    by (simp add: example_catalog_def)
  from ingestion_filters_and_sorts[of example_catalog]
  have s: "sorted (map function_name (get_interpreter_functions example_catalog))"
    by (rule conjunct1)
  from s a b c d show ?thesis by blast
qed

subsection \<open>Name normalisation\<close>

lemma digit_not_lower: "is_digit c \<Longrightarrow> \<not> is_lower c"
  by (auto simp: is_digit_def is_lower_def less_eq_char_def)

lemma digit_not_upper: "is_digit c \<Longrightarrow> \<not> is_upper c"
  by (auto simp: is_digit_def is_upper_def less_eq_char_def)

lemma digit_not_underscore: "is_digit c \<Longrightarrow> c \<noteq> CHR ''_''"
  by (auto simp: is_digit_def less_eq_char_def)

lemma takeWhile_lower_digits:
  "list_all is_digit ds \<Longrightarrow> takeWhile is_lower (cs @ ds) = takeWhile is_lower cs"
proof (induction cs)
  case Nil
  then show ?case by (cases ds) (simp_all add: digit_not_lower)
next
  case (Cons c cs)
  then show ?case by simp
qed

lemma capitalised_word_digits:
  assumes "list_all is_digit ds"
  shows "capitalised_word (s @ ds) = capitalised_word s"
proof (cases s)
  case Nil
  show ?thesis
  proof (cases ds)
    case Nil
    with \<open>s = []\<close> show ?thesis by simp
  next
    case (Cons d ds')
    with assms \<open>s = []\<close> show ?thesis
      by (cases ds') (simp_all add: capitalised_word_def digit_not_upper)
  qed
next
  case (Cons b s')
  show ?thesis
  proof (cases s')
    case Nil
    with assms \<open>s = b # s'\<close> show ?thesis
      by (cases ds) (simp_all add: capitalised_word_def digit_not_lower)
  next
    case (Cons c cs)
    with assms \<open>s = b # s'\<close> show ?thesis
      by (simp add: capitalised_word_def takeWhile_lower_digits)
  qed
qed

lemma capitalised_word_length: "capitalised_word s = Some k \<Longrightarrow> k \<le> length s"
  by (auto simp: capitalised_word_def length_takeWhile_le split: list.splits if_splits)

lemma one_of_digits:
  assumes "list_all is_digit ds" and "\<And>c. is_digit c \<Longrightarrow> \<not> cls c"
  shows "one_of cls (s @ ds) = one_of cls s"
  using assms by (cases s; cases ds) (simp_all add: one_of_def)

lemma one_of_length: "one_of cls s = Some k \<Longrightarrow> k \<le> length s"
  by (auto simp: one_of_def split: list.splits if_splits)

lemma capitalised_word_Nil: "capitalised_word [] = None"
  by (simp add: capitalised_word_def)

lemma one_of_Nil: "one_of cls [] = None"
  by (simp add: one_of_def)

lemma digit_blind_one_of:
  assumes "\<And>c. is_digit c \<Longrightarrow> \<not> cls c"
  shows "digit_blind \<lparr>group1 = g, group2 = one_of cls\<rparr>"
  unfolding digit_blind_def
  using one_of_digits[of _ cls] one_of_length[of cls] assms
  by (simp add: one_of_Nil)

lemma digit_blind_regexes: "\<forall>r \<in> set INTERPRETER_CAMEL_TO_SNAKE_CASE_REGEXES. digit_blind r"
proof -
  have "digit_blind \<lparr>group1 = g, group2 = capitalised_word\<rparr>" for g
    unfolding digit_blind_def
    using capitalised_word_digits capitalised_word_length
    by (simp add: capitalised_word_Nil)
  then show ?thesis
    by (simp add: INTERPRETER_CAMEL_TO_SNAKE_CASE_REGEXES_def digit_blind_one_of
        digit_not_upper)
qed

lemma digit_blind_group2_digits:
  "digit_blind r \<Longrightarrow> list_all is_digit ds \<Longrightarrow> group2 r (s @ ds) = group2 r s"
  by (simp add: digit_blind_def)

lemma digit_blind_group2_length:
  "digit_blind r \<Longrightarrow> group2 r s = Some k \<Longrightarrow> k \<le> length s"
  by (simp add: digit_blind_def)

lemma digit_blind_group2_Nil: "digit_blind r \<Longrightarrow> group2 r [] = None"
  by (simp add: digit_blind_def)

lemma re_sub_digits_only:
  assumes "digit_blind r" and "list_all is_digit ds"
  shows "re_sub r ds = ds"
  using assms(2)
proof (induction ds)
  case Nil
  then show ?case by simp
next
  case (Cons d ds)
  then have "list_all is_digit ds" by simp
  from digit_blind_group2_digits[OF assms(1) this, of "[]"] digit_blind_group2_Nil[OF assms(1)]
  have "group2 r ds = None" by simp
  with Cons show ?case by simp
qed

lemma re_sub_digits:
  assumes "digit_blind r" and "list_all is_digit ds"
  shows "re_sub r (x @ ds) = re_sub r x @ ds"
  using assms(1)
proof (induction r x rule: re_sub.induct)
  case (1 r)
  then show ?case by (simp add: re_sub_digits_only[OF _ assms(2)])
next
  case (2 r c cs)
  note blind = \<open>digit_blind r\<close>
  have g: "group2 r (cs @ ds) = group2 r cs"
    by (rule digit_blind_group2_digits[OF blind assms(2)])
  show ?case
  proof (cases "if group1 r c then group2 r cs else None")
    case None
    with 2 g show ?thesis by (auto split: if_splits)
  next
    case (Some k)
    then have k: "group2 r cs = Some k" by (simp split: if_splits)
    from digit_blind_group2_length[OF blind k] have le: "k \<le> length cs" .
    from "2.IH"(2)[OF Some blind] have "re_sub r (drop k cs @ ds) = re_sub r (drop k cs) @ ds" .
    with Some g le show ?thesis by (auto split: if_splits)
  qed
qed

lemma fold_re_sub_digits:
  assumes "\<forall>r \<in> set rs. digit_blind r" and "list_all is_digit ds"
  shows "fold re_sub rs (x @ ds) = fold re_sub rs x @ ds"
  using assms(1)
  by (induction rs arbitrary: x) (simp_all add: re_sub_digits[OF _ assms(2)])

lemma lower_char_digit: "is_digit c \<Longrightarrow> lower_char c = c"
  by (simp add: lower_char_def digit_not_upper)

lemma map_lower_char_digits: "list_all is_digit ds \<Longrightarrow> map lower_char ds = ds"
  by (induction ds) (simp_all add: lower_char_digit)

lemma camel_to_snake_case_digits:
  assumes "list_all is_digit ds"
  shows "camel_to_snake_case (x @ ds) INTERPRETER_CAMEL_TO_SNAKE_CASE_REGEXES
         = camel_to_snake_case x INTERPRETER_CAMEL_TO_SNAKE_CASE_REGEXES @ ds"
  by (simp add: camel_to_snake_case_def fold_re_sub_digits[OF digit_blind_regexes assms]
      map_lower_char_digits[OF assms])

lemma prefix_u_int_digits:
  assumes "list_all is_digit ds"
  shows "prefix ''_u_int'' (s @ ds) = prefix ''_u_int'' s"
proof
  assume p: "prefix ''_u_int'' (s @ ds)"
  show "prefix ''_u_int'' s"
  proof (rule ccontr)
    assume n: "\<not> prefix ''_u_int'' s"
    with p obtain us where us: "''_u_int'' = s @ us" "prefix us ds"
      by (auto simp: prefix_append)
    with n have "us \<noteq> []" by auto
    then obtain u us' where "us = u # us'" by (cases us) auto
    with us obtain ds' where "ds = u # ds'" by (cases ds) auto
    with assms have "is_digit u" by simp
    moreover from us \<open>us = u # us'\<close> have "u \<in> set ''_u_int''"
      by (metis in_set_conv_decomp)
    ultimately show False
      by (auto simp: is_digit_def less_eq_char_def)
  qed
next
  assume "prefix ''_u_int'' s"
  then show "prefix ''_u_int'' (s @ ds)" by (rule prefix_prefix)
qed

lemma underscore_not_digit: "\<not> is_digit CHR ''_''"
  by (simp add: is_digit_def less_eq_char_def)

lemma replace_u_int_digits_only: "list_all is_digit ds \<Longrightarrow> replace_u_int ds = ds"
  by (induction ds) (auto simp: underscore_not_digit)

lemma replace_u_int_digits:
  assumes "list_all is_digit ds"
  shows "replace_u_int (x @ ds) = replace_u_int x @ ds"
proof (induction x rule: replace_u_int.induct)
  case 1
  then show ?case by (simp add: replace_u_int_digits_only[OF assms])
next
  case (2 c cs)
  have p: "prefix ''_u_int'' (c # cs @ ds) = prefix ''_u_int'' (c # cs)"
    using prefix_u_int_digits[OF assms, of "c # cs"] by (simp only: append_Cons)
  show ?case
  proof (cases "prefix ''_u_int'' (c # cs)")
    case True
    then have len: "5 \<le> length cs" by (auto simp: prefix_def)
    from True p have pd: "prefix ''_u_int'' (c # cs @ ds)" by blast
    have a: "replace_u_int (c # cs @ ds) = ''_uint'' @ replace_u_int (drop 5 (cs @ ds))"
      using pd by (simp only: append_Cons replace_u_int.simps if_True)
    have b: "drop 5 (cs @ ds) = drop 5 cs @ ds" using len by simp
    have c: "replace_u_int (drop 5 cs @ ds) = replace_u_int (drop 5 cs) @ ds"
      by (rule "2.IH"(1)[OF True])
    have d: "replace_u_int (c # cs) = ''_uint'' @ replace_u_int (drop 5 cs)"
      using True by (simp only: replace_u_int.simps if_True)
    show ?thesis by (simp only: append_Cons a b c d append_assoc)
  next
    case False
    with p have pd: "\<not> prefix ''_u_int'' (c # cs @ ds)" by blast
    have a: "replace_u_int (c # cs @ ds) = c # replace_u_int (cs @ ds)"
      using pd by (simp only: append_Cons replace_u_int.simps if_False)
    have c: "replace_u_int (cs @ ds) = replace_u_int cs @ ds"
      by (rule "2.IH"(2)[OF False])
    have d: "replace_u_int (c # cs) = c # replace_u_int cs"
      using False by (simp only: replace_u_int.simps if_False)
    show ?thesis by (simp only: append_Cons a c d)
  qed
qed

lemma normalize_function_name_digits:
  "list_all is_digit ds \<Longrightarrow>
   normalize_function_name (x @ ds) = normalize_function_name x @ ds"
  by (simp add: normalize_function_name_def camel_to_snake_case_digits replace_u_int_digits)

lemma re_sub_last:
  assumes "digit_blind r"
  shows "x \<noteq> [] \<Longrightarrow> re_sub r x \<noteq> [] \<and> last (re_sub r x) = last x"
  using assms
proof (induction r x rule: re_sub.induct)
  case (1 r)
  then show ?case by simp
next
  case (2 r c cs)
  note blind = \<open>digit_blind r\<close>
  show ?case
  proof (cases "if group1 r c then group2 r cs else None")
    case None
    show ?thesis
    proof (cases "cs = []")
      case True
      with digit_blind_group2_Nil[OF blind] show ?thesis by simp
    next
      case False
      from "2.IH"(1)[OF None False blind] None False show ?thesis by simp
    qed
  next
    case (Some k)
    then have k: "group2 r cs = Some k" by (simp split: if_splits)
    with digit_blind_group2_Nil[OF blind] have ne: "cs \<noteq> []" by auto
    show ?thesis
    proof (cases "drop k cs = []")
      case True
      then have "take k cs = cs" by simp
      with Some True ne show ?thesis by simp
    next
      case False
      from "2.IH"(2)[OF Some False blind] Some False ne show ?thesis by simp
    qed
  qed
qed

lemma fold_re_sub_last:
  assumes "\<forall>r \<in> set rs. digit_blind r"
  shows "x \<noteq> [] \<Longrightarrow> fold re_sub rs x \<noteq> [] \<and> last (fold re_sub rs x) = last x"
  using assms
proof (induction rs arbitrary: x)
  case Nil
  then show ?case by simp
next
  case (Cons r rs)
  from Cons.prems have r: "digit_blind r" and rs: "\<forall>r \<in> set rs. digit_blind r" by simp_all
  from re_sub_last[OF r Cons.prems(1)] have a: "re_sub r x \<noteq> []"
    and b: "last (re_sub r x) = last x" by simp_all
  from Cons.IH[OF a rs] b show ?case by simp
qed

lemma replace_u_int_last:
  "x \<noteq> [] \<Longrightarrow> replace_u_int x \<noteq> [] \<and> last (replace_u_int x) = last x"
proof (induction x rule: replace_u_int.induct)
  case 1
  then show ?case by simp
next
  case (2 c cs)
  show ?case
  proof (cases "prefix ''_u_int'' (c # cs)")
    case True
    then obtain rest where cs: "c # cs = ''_u_int'' @ rest" by (auto simp: prefix_def)
    then have dr: "drop 5 cs = rest" by simp
    have d: "replace_u_int (c # cs) = ''_uint'' @ replace_u_int (drop 5 cs)"
      using True by (simp only: replace_u_int.simps if_True)
    show ?thesis
    proof (cases "rest = []")
      case True
      with cs d dr show ?thesis by simp
    next
      case False
      with "2.IH"(1)[OF \<open>prefix ''_u_int'' (c # cs)\<close>] dr
      have "replace_u_int rest \<noteq> [] \<and> last (replace_u_int rest) = last rest" by simp
      with cs d dr False show ?thesis by simp
    qed
  next
    case False
    have d: "replace_u_int (c # cs) = c # replace_u_int cs"
      using False by (simp only: replace_u_int.simps if_False)
    show ?thesis
    proof (cases "cs = []")
      case True
      with d show ?thesis by simp
    next
      case ne: False
      from "2.IH"(2)[OF False ne] d ne show ?thesis by simp
    qed
  qed
qed

lemma lower_char_underscore: "lower_char c = CHR ''_'' \<Longrightarrow> c = CHR ''_''"
proof (cases "is_upper c")
  case False
  assume "lower_char c = CHR ''_''"
  with False show ?thesis by (simp add: lower_char_def)
next
  case True
  assume "lower_char c = CHR ''_''"
  with True have "char_of (of_char c + (32::nat)) = CHR ''_''" by (simp add: lower_char_def)
  then have "of_char (char_of (of_char c + (32::nat)) :: char) = (of_char CHR ''_'' :: nat)"
    by simp
  then have "(of_char c + 32) mod 256 = (95::nat)" by simp
  moreover from True have "65 \<le> (of_char c :: nat) \<and> (of_char c :: nat) \<le> 90"
    by (simp add: is_upper_def less_eq_char_def)
  ultimately show ?thesis by simp
qed

lemma normalize_function_name_last:
  assumes "x \<noteq> []"
  shows "normalize_function_name x \<noteq> [] \<and>
         last (normalize_function_name x) = lower_char (last x)"
proof -
  let ?y = "fold re_sub INTERPRETER_CAMEL_TO_SNAKE_CASE_REGEXES x"
  from fold_re_sub_last[OF digit_blind_regexes assms]
  have y: "?y \<noteq> []" "last ?y = last x" by simp_all
  then have z: "map lower_char ?y \<noteq> []" "last (map lower_char ?y) = lower_char (last x)"
    by (simp_all add: last_map)
  from replace_u_int_last[OF z(1)] z(2) show ?thesis
    by (simp add: normalize_function_name_def camel_to_snake_case_def)
qed

text \<open>
  C8: for a name that ends in a digit run, the normalization of the whole name is the
  normalization of the part before the run followed by the digits unchanged, for
  \<^verbatim>\<open>camel_to_snake_case\<close> under the interpreter's list and for the name after the
  \<^verbatim>\<open>_u_int\<close> replacement; and the normalized part before the run ends in the lower-case
  form of the character that preceded the digits, so it ends in a separator only when the
  name already had one there.
\<close>

theorem trailing_digits_stay_attached:
  assumes "list_all is_digit ds"
  shows "camel_to_snake_case (pre @ ds) INTERPRETER_CAMEL_TO_SNAKE_CASE_REGEXES
           = camel_to_snake_case pre INTERPRETER_CAMEL_TO_SNAKE_CASE_REGEXES @ ds \<and>
         normalize_function_name (pre @ ds) = normalize_function_name pre @ ds \<and>
         (pre \<noteq> [] \<longrightarrow>
            normalize_function_name pre \<noteq> [] \<and>
            last (normalize_function_name pre) = lower_char (last pre) \<and>
            (last pre \<noteq> CHR ''_'' \<longrightarrow> last (normalize_function_name pre) \<noteq> CHR ''_''))"
  using camel_to_snake_case_digits[OF assms] normalize_function_name_digits[OF assms]
    normalize_function_name_last[of pre] lower_char_underscore[of "last pre"]
  by auto

theorem trailing_digits_stay_attached_witness:
  "list_all is_digit ''32'' \<and>
   normalize_function_name (''GetChanAttributeUInt'' @ ''32'')
     = normalize_function_name ''GetChanAttributeUInt'' @ ''32'' \<and>
   normalize_function_name ''GetChanAttributeUInt'' = ''get_chan_attribute_uint'' \<and>
   last (normalize_function_name ''GetChanAttributeUInt'') \<noteq> CHR ''_''"
proof -
  have d: "list_all is_digit ''32''" by code_simp
  have e: "normalize_function_name ''GetChanAttributeUInt'' = ''get_chan_attribute_uint''"
    by code_simp
  from trailing_digits_stay_attached[OF d, of "''GetChanAttributeUInt''"] d e
  show ?thesis by simp
qed

end
